theory Spec2Isabelle
  imports Main "HOL-Library.Word"
begin

section \<open>The blocking HTTPS request cycle of mbed-http (https_request.h)\<close>

text \<open>
  The class \<^verbatim>\<open>HttpsRequest\<close> drives one request over mbed TLS and a TCP socket.
  The TLS library, the socket, the request builder and the streaming response parser
  are not part of the source under study, so the embedding takes them as parameters:
  \<^item> the constants of their headers are the fields of a \<open>platform\<close> record;
  \<^item> what each of their calls returns is scripted by an \<open>env\<close> record, so that
    \<open>send\<close> becomes a function of the script, the request body and the object's state.
  Diagnostic printing (\<^verbatim>\<open>mbedtls_printf\<close>, \<^verbatim>\<open>print_mbedtls_error\<close>, the
  certificate summary) has no effect on the control flow and is left out, as are
  \<^verbatim>\<open>free\<close> and \<^verbatim>\<open>malloc\<close>.
\<close>

subsection \<open>Constants of the absent headers\<close>

type_synonym byte = "8 word"

record platform =
  MBEDTLS_ERR_SSL_WANT_READ :: int
  MBEDTLS_ERR_SSL_WANT_WRITE :: int
  NSAPI_ERROR_WOULD_BLOCK :: int
  NSAPI_ERROR_OK :: int
  HTTP_RECEIVE_BUFFER_SIZE :: nat

text \<open>
  The values used at concrete inputs: mbed TLS defines the two retry codes as
  \<open>-0x6900\<close> and \<open>-0x6880\<close>, mbed OS defines would-block as \<open>-3001\<close> and success as
  \<open>0\<close>, and the receive buffer of the reference is 1 KiB.
\<close>

definition mbed :: platform where
  "mbed = \<lparr> MBEDTLS_ERR_SSL_WANT_READ = - 26880,
            MBEDTLS_ERR_SSL_WANT_WRITE = - 26752,
            NSAPI_ERROR_WOULD_BLOCK = - 3001,
            NSAPI_ERROR_OK = 0,
            HTTP_RECEIVE_BUFFER_SIZE = 1024 \<rparr>"

subsection \<open>The script of the external calls\<close>

text \<open>
  \<open>'r\<close> is the response object together with the parser that fills it.
  \<open>ssl_write_ret k\<close> is what \<^verbatim>\<open>mbedtls_ssl_write\<close> returns when \<open>k\<close> buffers have
  been handed to it before (for a new object: the \<open>k\<close>-th call, counted from 0);
  \<open>ssl_read_ret k\<close> and \<open>ssl_read_bytes k\<close> are the return value of the \<open>k\<close>-th
  \<^verbatim>\<open>mbedtls_ssl_read\<close> of a \<open>send\<close> and the bytes it left at the start of the
  receive buffer. The code does not look at how many bytes a write took, only at
  the sign of what it returns.
\<close>

record 'r env =
  ctr_drbg_seed_ret :: int
  x509_crt_parse_ret :: int
  ssl_config_defaults_ret :: int
  ssl_setup_ret :: int
  connect_ret :: int
  ssl_handshake_ret :: int
  build :: "byte list \<Rightarrow> byte list"
  ssl_write_ret :: "nat \<Rightarrow> int"
  ssl_read_ret :: "nat \<Rightarrow> int"
  ssl_read_bytes :: "nat \<Rightarrow> byte list"
  new_HttpResponse :: 'r
  execute :: "'r \<Rightarrow> byte list \<Rightarrow> nat \<times> 'r"
  finish :: "'r \<Rightarrow> 'r"

subsection \<open>The object's state\<close>

text \<open>
  \<open>error_code\<close> is the member \<^verbatim>\<open>_error\<close>, \<open>response\<close> the member \<^verbatim>\<open>_response\<close>
  (\<open>None\<close> is the null pointer). \<open>tcpsocket_open\<close> is the connection state of
  \<^verbatim>\<open>_tcpsocket\<close>. Two logs record what the code does to its surroundings:
  \<open>written\<close> holds the buffers handed to \<^verbatim>\<open>mbedtls_ssl_write\<close>, in order, and
  \<open>nul_stores\<close> the indices at which the read loop stored a terminating zero into the
  receive buffer.
\<close>

record 'r HttpsRequest =
  error_code :: int
  response :: "'r option"
  tcpsocket_open :: bool
  written :: "byte list list"
  nul_stores :: "nat list"

definition onError :: "'r HttpsRequest \<Rightarrow> int \<Rightarrow> 'r HttpsRequest" where
  "onError s error = s\<lparr> tcpsocket_open := False, error_code := error \<rparr>"

definition get_error :: "'r HttpsRequest \<Rightarrow> int" where
  "get_error s = error_code s"

definition close :: "'r HttpsRequest \<Rightarrow> 'r HttpsRequest" where
  "close s = s\<lparr> tcpsocket_open := False \<rparr>"

definition check_mbedtls_ssl_write ::
  "platform \<Rightarrow> int \<Rightarrow> 'r HttpsRequest \<Rightarrow> bool \<times> 'r HttpsRequest" where
  "check_mbedtls_ssl_write P ret s =
     (if ret < 0 then
        (if ret \<noteq> MBEDTLS_ERR_SSL_WANT_READ P \<and> ret \<noteq> MBEDTLS_ERR_SSL_WANT_WRITE P
         then (True, onError s (- 1))
         else (True, s\<lparr> error_code := ret \<rparr>))
      else (False, s))"

definition mbedtls_ssl_write ::
  "'r env \<Rightarrow> 'r HttpsRequest \<Rightarrow> byte list \<Rightarrow> int \<times> 'r HttpsRequest" where
  "mbedtls_ssl_write E s buf =
     (ssl_write_ret E (length (written s)), s\<lparr> written := written s @ [buf] \<rparr>)"

subsection \<open>The BIO callbacks\<close>

text \<open>
  The callbacks mbed TLS uses to reach the socket. Their first argument here is what
  \<^verbatim>\<open>socket->recv\<close> or \<^verbatim>\<open>socket->send\<close> returned.
  \<^verbatim>\<open>ssl_send\<close> returns its \<^verbatim>\<open>size_t len\<close> through an \<^verbatim>\<open>int\<close>; on the 32-bit
  target that conversion is the two's complement reading of the low 32 bits.
\<close>

definition int_of_size_t :: "nat \<Rightarrow> int" where
  "int_of_size_t len = sint (word_of_nat len :: 32 word)"

definition ssl_recv :: "platform \<Rightarrow> int \<Rightarrow> int" where
  "ssl_recv P recv =
     (if NSAPI_ERROR_WOULD_BLOCK P = recv then MBEDTLS_ERR_SSL_WANT_READ P
      else if recv < 0 then - 1
      else recv)"

definition ssl_send :: "platform \<Rightarrow> int \<Rightarrow> nat \<Rightarrow> int" where
  "ssl_send P size' len =
     (if NSAPI_ERROR_WOULD_BLOCK P = size' then int_of_size_t len
      else if size' < 0 then - 1
      else size')"

subsection \<open>The two loops of send\<close>

text \<open>
  The body loop: \<open>send_buf\<close> is the part of the body still to be sent, so its length
  is the variable \<^verbatim>\<open>body_size\<close>. The result is whether \<open>send\<close> returns null here,
  the variable \<^verbatim>\<open>ret\<close> and the state.
\<close>

function body_loop ::
  "platform \<Rightarrow> 'r env \<Rightarrow> int \<Rightarrow> byte list \<Rightarrow> 'r HttpsRequest \<Rightarrow> bool \<times> int \<times> 'r HttpsRequest"
  where
  "body_loop P E ret send_buf s =
     (if length send_buf > 0 then
        (let send_size = (if length send_buf < 4000 then length send_buf else 4000);
             (ret', s1) = mbedtls_ssl_write E s (take send_size send_buf);
             (failed, s2) = check_mbedtls_ssl_write P ret' s1
         in if failed then (True, ret', s2)
            else body_loop P E ret' (drop send_size send_buf) s2)
      else (False, ret, s))"
  by pat_completeness auto
termination
  by (relation "measure (\<lambda>(P, E, ret, send_buf, s). length send_buf)") auto

declare body_loop.simps [simp del]

text \<open>
  The read loop leaves either by the parser error (\<open>send\<close> returns null at once) or
  with the last value of \<^verbatim>\<open>ret\<close>. It need not terminate: a transport that fills the
  buffer on every read keeps it running, so it is a partial function and \<open>None\<close>
  stands for a call that never returns.
\<close>

datatype loop_exit = ParserError | LoopExit int

partial_function (option) read_loop ::
  "platform \<Rightarrow> 'r env \<Rightarrow> nat \<Rightarrow> 'r \<Rightarrow> 'r HttpsRequest \<Rightarrow> (loop_exit \<times> 'r \<times> 'r HttpsRequest) option"
  where
  "read_loop P E k parser s =
     (if ssl_read_ret E k > 0 then
        (let bpos = nat (ssl_read_ret E k);
             s1 = s\<lparr> nul_stores := nul_stores s @ [bpos] \<rparr>;
             nparsed = fst (execute E parser (take bpos (ssl_read_bytes E k)));
             parser' = snd (execute E parser (take bpos (ssl_read_bytes E k)))
         in if nparsed \<noteq> bpos then Some (ParserError, parser', s1\<lparr> error_code := - 2101 \<rparr>)
            else if bpos < HTTP_RECEIVE_BUFFER_SIZE P then Some (LoopExit (ssl_read_ret E k), parser', s1)
            else read_loop P E (Suc k) parser' s1)
      else Some (LoopExit (ssl_read_ret E k), parser, s))"

declare read_loop.simps [code]

subsection \<open>send\<close>

text \<open>
  Lines 199 to 222: the serialised request, the body in chunks, the trailing CRLF.
  The value of the CRLF write is dropped and the check after it reads \<^verbatim>\<open>ret\<close>,
  which still holds the value of the write before. The result says whether \<open>send\<close>
  returns null in this part.
\<close>

definition CRLF :: "byte list" where
  "CRLF = [13, 10]"

definition write_request ::
  "platform \<Rightarrow> 'r env \<Rightarrow> byte list \<Rightarrow> 'r HttpsRequest \<Rightarrow> bool \<times> 'r HttpsRequest" where
  "write_request P E body s =
     (let request = build E body;
          (ret, s1) = mbedtls_ssl_write E s request;
          (failed, s2) = check_mbedtls_ssl_write P ret s1
      in if failed then (True, s2)
         else
           (let (failed, ret, s3) = body_loop P E ret body s2
            in if failed then (True, s3)
               else
                 (let s4 = snd (mbedtls_ssl_write E s3 CRLF)
                  in check_mbedtls_ssl_write P ret s4)))"

text \<open>
  Lines 242 to 286. The parser works on the object \<^verbatim>\<open>_response\<close> points to, so
  whatever the parser has reached is what the member holds when \<open>send\<close> returns.
\<close>

definition receive_response ::
  "platform \<Rightarrow> 'r env \<Rightarrow> 'r HttpsRequest \<Rightarrow> ('r option \<times> 'r HttpsRequest) option" where
  "receive_response P E s =
     (case read_loop P E 0 (new_HttpResponse E) (s\<lparr> response := Some (new_HttpResponse E) \<rparr>) of
        None \<Rightarrow> None
      | Some (ParserError, parser, s1) \<Rightarrow> Some (None, s1\<lparr> response := Some parser \<rparr>)
      | Some (LoopExit ret, parser, s1) \<Rightarrow>
          (let s2 = s1\<lparr> response := Some parser \<rparr>
           in if ret < 0 then
                (if ret \<noteq> MBEDTLS_ERR_SSL_WANT_READ P \<and> ret \<noteq> MBEDTLS_ERR_SSL_WANT_WRITE P
                 then Some (None, onError s2 (- 1))
                 else Some (None, s2\<lparr> error_code := ret \<rparr>))
              else
                (let s3 = s2\<lparr> response := Some (finish E parser) \<rparr>
                 in Some (response s3, close s3))))"

text \<open>
  The whole of \<open>send\<close>: the returned pointer (\<open>None\<close> for null) and the object
  afterwards, or \<open>None\<close> when the read loop never ends.
\<close>

definition send ::
  "platform \<Rightarrow> 'r env \<Rightarrow> byte list \<Rightarrow> 'r HttpsRequest \<Rightarrow> ('r option \<times> 'r HttpsRequest) option" where
  "send P E body s =
     (if ctr_drbg_seed_ret E \<noteq> 0 then Some (None, s\<lparr> error_code := ctr_drbg_seed_ret E \<rparr>)
      else if x509_crt_parse_ret E \<noteq> 0 then Some (None, s\<lparr> error_code := x509_crt_parse_ret E \<rparr>)
      else if ssl_config_defaults_ret E \<noteq> 0
        then Some (None, s\<lparr> error_code := ssl_config_defaults_ret E \<rparr>)
      else if ssl_setup_ret E \<noteq> 0 then Some (None, s\<lparr> error_code := ssl_setup_ret E \<rparr>)
      else if connect_ret E \<noteq> NSAPI_ERROR_OK P then Some (None, onError s (- 1))
      else
        (let s1 = s\<lparr> tcpsocket_open := True \<rparr>
         in if ssl_handshake_ret E < 0 then
              (if ssl_handshake_ret E \<noteq> MBEDTLS_ERR_SSL_WANT_READ P
                  \<and> ssl_handshake_ret E \<noteq> MBEDTLS_ERR_SSL_WANT_WRITE P
               then Some (None, onError s1 (- 1))
               else Some (None, s1\<lparr> error_code := ssl_handshake_ret E \<rparr>))
            else
              (let (failed, s2) = write_request P E body s1
               in if failed then Some (None, s2)
                  else receive_response P E s2)))"

subsection \<open>Vocabulary for the statements\<close>

text \<open>
  A return code is a retry request when it is one of the two want-codes; a negative
  code that is not makes the failure fatal, and the code recorded is then \<open>-1\<close>.
\<close>

definition retryable :: "platform \<Rightarrow> int \<Rightarrow> bool" where
  "retryable P ret \<longleftrightarrow> ret = MBEDTLS_ERR_SSL_WANT_READ P \<or> ret = MBEDTLS_ERR_SSL_WANT_WRITE P"

definition recorded_code :: "platform \<Rightarrow> int \<Rightarrow> int" where
  "recorded_code P ret = (if retryable P ret then ret else - 1)"

text \<open>The TLS set-up and the connect succeed.\<close>

definition connects :: "platform \<Rightarrow> 'r env \<Rightarrow> bool" where
  "connects P E \<longleftrightarrow>
     ctr_drbg_seed_ret E = 0 \<and> x509_crt_parse_ret E = 0 \<and> ssl_config_defaults_ret E = 0
     \<and> ssl_setup_ret E = 0 \<and> connect_ret E = NSAPI_ERROR_OK P"

text \<open>
  A body of \<open>body_size\<close> bytes takes \<open>nchunks body_size\<close> passes of the body loop.
  With the request as write number 0 (after those already in the log), the chunks are
  the writes \<open>1\<close> to \<open>nchunks body_size\<close> and the CRLF is the write after them.
\<close>

definition nchunks :: "nat \<Rightarrow> nat" where
  "nchunks body_size = (body_size + 3999) div 4000"

definition crlf_index :: "'r HttpsRequest \<Rightarrow> byte list \<Rightarrow> nat" where
  "crlf_index s body = length (written s) + nchunks (length body) + 1"

text \<open>The request write and every chunk write return a non-negative value.\<close>

definition writes_accepted :: "'r env \<Rightarrow> byte list \<Rightarrow> 'r HttpsRequest \<Rightarrow> bool" where
  "writes_accepted E body s \<longleftrightarrow>
     (\<forall>k \<le> nchunks (length body). 0 \<le> ssl_write_ret E (length (written s) + k))"

definition reaches_body_step :: "platform \<Rightarrow> 'r env \<Rightarrow> bool" where
  "reaches_body_step P E \<longleftrightarrow> connects P E \<and> 0 \<le> ssl_handshake_ret E"

definition reaches_read_loop :: "platform \<Rightarrow> 'r env \<Rightarrow> byte list \<Rightarrow> 'r HttpsRequest \<Rightarrow> bool" where
  "reaches_read_loop P E body s \<longleftrightarrow> reaches_body_step P E \<and> writes_accepted E body s"

text \<open>
  The bytes the \<open>k\<close>-th pass of the read loop hands to the parser, the parser after
  the first \<open>k\<close> passes, and what it reports in pass \<open>k\<close>. Pass \<open>k\<close> goes on to another
  read when the read returned data, the parser took all of it, and the buffer was full.
\<close>

definition chunk :: "'r env \<Rightarrow> nat \<Rightarrow> byte list" where
  "chunk E k = take (nat (ssl_read_ret E k)) (ssl_read_bytes E k)"

primrec fed :: "'r env \<Rightarrow> nat \<Rightarrow> 'r" where
  "fed E 0 = new_HttpResponse E"
| "fed E (Suc k) = snd (execute E (fed E k) (chunk E k))"

definition nparsed :: "'r env \<Rightarrow> nat \<Rightarrow> nat" where
  "nparsed E k = fst (execute E (fed E k) (chunk E k))"

definition continues :: "platform \<Rightarrow> 'r env \<Rightarrow> nat \<Rightarrow> bool" where
  "continues P E k \<longleftrightarrow>
     0 < ssl_read_ret E k \<and> nparsed E k = nat (ssl_read_ret E k)
     \<and> \<not> nat (ssl_read_ret E k) < HTTP_RECEIVE_BUFFER_SIZE P"

definition stores_of :: "'r env \<Rightarrow> nat \<Rightarrow> nat list" where
  "stores_of E n = map (\<lambda>i. nat (ssl_read_ret E i)) [0..<n]"

text \<open>
  What the read loop does to the object: it appends to the log of stores, and on the
  parser error it sets the error code.
\<close>

definition loop_effect :: "loop_exit \<Rightarrow> nat list \<Rightarrow> 'r HttpsRequest \<Rightarrow> 'r HttpsRequest" where
  "loop_effect x ns s =
     (if x = ParserError then s\<lparr> nul_stores := nul_stores s @ ns, error_code := - 2101 \<rparr>
      else s\<lparr> nul_stores := nul_stores s @ ns \<rparr>)"

subsection \<open>Concrete inputs\<close>

text \<open>
  A new object, and a script in which everything succeeds: the server answers with
  five bytes in one read, and the parser, which here only counts, takes all it is given.
\<close>

definition fresh :: "nat HttpsRequest" where
  "fresh = \<lparr> error_code = 0, response = None, tcpsocket_open = False,
             written = [], nul_stores = [] \<rparr>"

definition smooth :: "nat env" where
  "smooth = \<lparr> ctr_drbg_seed_ret = 0, x509_crt_parse_ret = 0, ssl_config_defaults_ret = 0,
       ssl_setup_ret = 0, connect_ret = 0, ssl_handshake_ret = 0,
       build = (\<lambda>body. [71, 69, 84]),
       ssl_write_ret = (\<lambda>k. 3),
       ssl_read_ret = (\<lambda>k. if k = 0 then 5 else 0),
       ssl_read_bytes = (\<lambda>k. [72, 84, 84, 80, 47]),
       new_HttpResponse = 0,
       execute = (\<lambda>r bs. (length bs, r + length bs)),
       finish = (\<lambda>r. r + 1000) \<rparr>"

section \<open>Properties\<close>

subsection \<open>The write check\<close>

lemma check_accepts: "0 \<le> ret \<Longrightarrow> check_mbedtls_ssl_write P ret s = (False, s)"
  by (simp add: check_mbedtls_ssl_write_def)

lemma check_rejects:
  "ret < 0 \<Longrightarrow> check_mbedtls_ssl_write P ret s =
     (True, if retryable P ret then s\<lparr> error_code := ret \<rparr> else onError s (- 1))"
  by (simp add: check_mbedtls_ssl_write_def retryable_def)

lemma rejected_code:
  "ret < 0 \<Longrightarrow> error_code (snd (check_mbedtls_ssl_write P ret s)) = recorded_code P ret"
  by (simp add: check_rejects recorded_code_def onError_def)

subsection \<open>The body loop, one pass at a time\<close>

lemma body_loop_done: "body_loop P E ret [] s = (False, ret, s)"
  by (subst body_loop.simps) simp

lemma body_loop_pass:
  assumes "send_buf \<noteq> []"
  shows "body_loop P E ret send_buf s =
     (let send_size = min (length send_buf) 4000;
          ret' = ssl_write_ret E (length (written s));
          s1 = s\<lparr> written := written s @ [take send_size send_buf] \<rparr>
      in if ret' < 0 then (True, ret', snd (check_mbedtls_ssl_write P ret' s1))
         else body_loop P E ret' (drop send_size send_buf) s1)"
proof -
  have m: "(if length send_buf < 4000 then length send_buf else 4000) = min (length send_buf) 4000"
    by simp
  show ?thesis
  proof (cases "ssl_write_ret E (length (written s)) < 0")
    case True
    then show ?thesis using assms
      by (subst body_loop.simps) (simp add: m Let_def mbedtls_ssl_write_def check_rejects del: min_less_iff_conj)
  next
    case False
    then show ?thesis using assms
      by (subst body_loop.simps) (simp add: m Let_def mbedtls_ssl_write_def check_accepts)
  qed
qed

lemma nchunks_0: "nchunks 0 = 0"
  by (simp add: nchunks_def)

lemma nchunks_pass: "0 < n \<Longrightarrow> nchunks n = Suc (nchunks (n - min n 4000))"
  by (auto simp: nchunks_def min_def)

lemma body_loop_accepted:
  assumes "0 \<le> ret"
    and "\<forall>k < nchunks (length send_buf). 0 \<le> ssl_write_ret E (length (written s) + k)"
  shows "\<exists>chunks ret'. body_loop P E ret send_buf s = (False, ret', s\<lparr> written := written s @ chunks \<rparr>)
      \<and> 0 \<le> ret' \<and> length chunks = nchunks (length send_buf) \<and> concat chunks = send_buf
      \<and> (\<forall>c \<in> set chunks. 0 < length c \<and> length c \<le> 4000)"
  using assms
proof (induction "length send_buf" arbitrary: send_buf ret s rule: less_induct)
  case less
  show ?case
  proof (cases "send_buf = []")
    case True
    then show ?thesis using less.prems(1) by (simp add: body_loop_done nchunks_0)
  next
    case False
    define send_size where "send_size = min (length send_buf) 4000"
    define ret' where "ret' = ssl_write_ret E (length (written s))"
    define s1 where "s1 = s\<lparr> written := written s @ [take send_size send_buf] \<rparr>"
    have n: "nchunks (length send_buf) = Suc (nchunks (length (drop send_size send_buf)))"
      using False nchunks_pass[of "length send_buf"] by (simp add: send_size_def)
    have r0: "0 \<le> ret'"
      using less.prems(2) n unfolding ret'_def by (metis add.right_neutral zero_less_Suc)
    have pass: "body_loop P E ret send_buf s = body_loop P E ret' (drop send_size send_buf) s1"
      using False r0 by (simp add: body_loop_pass Let_def send_size_def ret'_def s1_def)
    have shorter: "length (drop send_size send_buf) < length send_buf"
      using False by (simp add: send_size_def)
    have rest: "\<forall>k < nchunks (length (drop send_size send_buf)). 0 \<le> ssl_write_ret E (length (written s1) + k)"
    proof (intro allI impI)
      fix k assume "k < nchunks (length (drop send_size send_buf))"
      then have "Suc k < nchunks (length send_buf)" using n by simp
      then have "0 \<le> ssl_write_ret E (length (written s) + Suc k)" using less.prems(2) by blast
      then show "0 \<le> ssl_write_ret E (length (written s1) + k)" by (simp add: s1_def)
    qed
    from less.hyps[OF shorter r0 rest]
    obtain chunks r where ih:
      "body_loop P E ret' (drop send_size send_buf) s1 = (False, r, s1\<lparr> written := written s1 @ chunks \<rparr>)"
      "0 \<le> r" "length chunks = nchunks (length (drop send_size send_buf))"
      "concat chunks = drop send_size send_buf" "\<forall>c \<in> set chunks. 0 < length c \<and> length c \<le> 4000"
      by blast
    have res: "body_loop P E ret send_buf s
        = (False, r, s\<lparr> written := written s @ (take send_size send_buf # chunks) \<rparr>)"
      using pass ih(1) by (simp add: s1_def)
    have len: "length (take send_size send_buf # chunks) = nchunks (length send_buf)"
      using ih(3) n by simp
    have cat: "concat (take send_size send_buf # chunks) = send_buf"
      using ih(4) by simp
    have each: "\<forall>c \<in> set (take send_size send_buf # chunks). 0 < length c \<and> length c \<le> 4000"
      using ih(5) False by (simp add: send_size_def)
    show ?thesis using res ih(2) len cat each by blast
  qed
qed

text \<open>The loop asks only for the results of its own writes.\<close>

lemma body_loop_script:
  assumes "\<forall>k < nchunks (length send_buf). f (length (written s) + k) = ssl_write_ret E (length (written s) + k)"
  shows "body_loop P (E\<lparr> ssl_write_ret := f \<rparr>) ret send_buf s = body_loop P E ret send_buf s"
  using assms
proof (induction "length send_buf" arbitrary: send_buf ret s rule: less_induct)
  case less
  show ?case
  proof (cases "send_buf = []")
    case True
    then show ?thesis by (simp add: body_loop_done)
  next
    case False
    define send_size where "send_size = min (length send_buf) 4000"
    define ret' where "ret' = ssl_write_ret E (length (written s))"
    define s1 where "s1 = s\<lparr> written := written s @ [take send_size send_buf] \<rparr>"
    have shorter: "length (drop send_size send_buf) < length send_buf"
      using False by (simp add: send_size_def)
    have n: "nchunks (length send_buf) = Suc (nchunks (length (drop send_size send_buf)))"
      using False nchunks_pass[of "length send_buf"] by (simp add: send_size_def)
    have same: "f (length (written s)) = ret'"
      using less.prems n unfolding ret'_def by (metis add.right_neutral zero_less_Suc)
    have rest: "\<forall>k < nchunks (length (drop send_size send_buf)). f (length (written s1) + k) = ssl_write_ret E (length (written s1) + k)"
    proof (intro allI impI)
      fix k assume "k < nchunks (length (drop send_size send_buf))"
      then have "Suc k < nchunks (length send_buf)" using n by simp
      then have "f (length (written s) + Suc k) = ssl_write_ret E (length (written s) + Suc k)"
        using less.prems by blast
      then show "f (length (written s1) + k) = ssl_write_ret E (length (written s1) + k)"
        by (simp add: s1_def)
    qed
    show ?thesis
      using False same less.hyps[OF shorter rest, of ret']
      by (simp add: body_loop_pass Let_def send_size_def ret'_def s1_def)
  qed
qed

subsection \<open>Request, body and CRLF\<close>

lemma write_request_accepted:
  assumes "writes_accepted E body s"
  shows "\<exists>chunks. write_request P E body s
        = (False, s\<lparr> written := written s @ [build E body] @ chunks @ [CRLF] \<rparr>)
      \<and> length chunks = nchunks (length body) \<and> concat chunks = body
      \<and> (\<forall>c \<in> set chunks. 0 < length c \<and> length c \<le> 4000)"
proof -
  define ret where "ret = ssl_write_ret E (length (written s))"
  define s1 where "s1 = s\<lparr> written := written s @ [build E body] \<rparr>"
  have r0: "0 \<le> ret"
    using assms unfolding writes_accepted_def ret_def by (metis add.right_neutral le0)
  have rest: "\<forall>k < nchunks (length body). 0 \<le> ssl_write_ret E (length (written s1) + k)"
  proof (intro allI impI)
    fix k assume "k < nchunks (length body)"
    then have "Suc k \<le> nchunks (length body)" by simp
    then have "0 \<le> ssl_write_ret E (length (written s) + Suc k)"
      using assms unfolding writes_accepted_def by blast
    then show "0 \<le> ssl_write_ret E (length (written s1) + k)" by (simp add: s1_def)
  qed
  from body_loop_accepted[OF r0 rest, where P = P]
  obtain chunks r where b:
    "body_loop P E ret body s1 = (False, r, s1\<lparr> written := written s1 @ chunks \<rparr>)"
    "0 \<le> r" "length chunks = nchunks (length body)" "concat chunks = body"
    "\<forall>c \<in> set chunks. 0 < length c \<and> length c \<le> 4000"
    by blast
  have "write_request P E body s = (False, s\<lparr> written := written s @ [build E body] @ chunks @ [CRLF] \<rparr>)"
    using r0 b(1,2)
    by (simp add: write_request_def mbedtls_ssl_write_def check_accepts ret_def[symmetric]
        s1_def[symmetric]) (simp add: s1_def)
  then show ?thesis using b(3,4,5) by blast
qed

lemma send_reaches_body_step:
  assumes "reaches_body_step P E"
  shows "send P E body s =
     (let (failed, s2) = write_request P E body (s\<lparr> tcpsocket_open := True \<rparr>)
      in if failed then Some (None, s2) else receive_response P E s2)"
  using assms by (simp add: send_def reaches_body_step_def connects_def)

lemma send_reaches_read_loop:
  assumes "reaches_read_loop P E body s"
  shows "\<exists>chunks. send P E body s
        = receive_response P E
            (s\<lparr> tcpsocket_open := True, written := written s @ [build E body] @ chunks @ [CRLF] \<rparr>)
      \<and> length chunks = nchunks (length body) \<and> concat chunks = body
      \<and> (\<forall>c \<in> set chunks. 0 < length c \<and> length c \<le> 4000)"
proof -
  have w: "writes_accepted E body (s\<lparr> tcpsocket_open := True \<rparr>)"
    using assms by (simp add: reaches_read_loop_def writes_accepted_def)
  from write_request_accepted[OF w, of P]
  obtain chunks where c: "write_request P E body (s\<lparr> tcpsocket_open := True \<rparr>)
        = (False, s\<lparr> tcpsocket_open := True, written := written s @ [build E body] @ chunks @ [CRLF] \<rparr>)"
      "length chunks = nchunks (length body)" "concat chunks = body"
      "\<forall>c \<in> set chunks. 0 < length c \<and> length c \<le> 4000"
    by auto
  have "reaches_body_step P E" using assms by (simp add: reaches_read_loop_def)
  from send_reaches_body_step[OF this, of body s] c(1)
  have "send P E body s = receive_response P E
            (s\<lparr> tcpsocket_open := True, written := written s @ [build E body] @ chunks @ [CRLF] \<rparr>)"
    by simp
  then show ?thesis using c(2,3,4) by blast
qed

subsection \<open>The read loop, one pass at a time\<close>

lemma read_loop_continues:
  assumes "continues P E k"
  shows "read_loop P E k (fed E k) s
       = read_loop P E (Suc k) (fed E (Suc k)) (s\<lparr> nul_stores := nul_stores s @ [nat (ssl_read_ret E k)] \<rparr>)"
  using assms
  by (subst read_loop.simps) (simp add: continues_def nparsed_def chunk_def Let_def)

lemma read_loop_skips:
  assumes "\<forall>i < n. continues P E i"
  shows "read_loop P E 0 (fed E 0) s
       = read_loop P E n (fed E n) (s\<lparr> nul_stores := nul_stores s @ stores_of E n \<rparr>)"
  using assms
proof (induction n)
  case 0
  then show ?case by (simp add: stores_of_def)
next
  case (Suc n)
  then have "read_loop P E 0 (fed E 0) s
       = read_loop P E n (fed E n) (s\<lparr> nul_stores := nul_stores s @ stores_of E n \<rparr>)"
    by simp
  also have "\<dots> = read_loop P E (Suc n) (fed E (Suc n))
      (s\<lparr> nul_stores := nul_stores s @ stores_of E n @ [nat (ssl_read_ret E n)] \<rparr>)"
    using Suc.prems by (subst read_loop_continues) simp_all
  finally show ?case by (simp add: stores_of_def)
qed

lemma read_loop_parser_error:
  assumes "0 < ssl_read_ret E k" and "nparsed E k \<noteq> nat (ssl_read_ret E k)"
  shows "read_loop P E k (fed E k) s
       = Some (ParserError, fed E (Suc k),
               s\<lparr> nul_stores := nul_stores s @ [nat (ssl_read_ret E k)], error_code := - 2101 \<rparr>)"
  using assms
  by (subst read_loop.simps) (simp add: nparsed_def chunk_def Let_def)

lemma read_loop_short_read:
  assumes "0 < ssl_read_ret E k" and "nparsed E k = nat (ssl_read_ret E k)"
    and "nat (ssl_read_ret E k) < HTTP_RECEIVE_BUFFER_SIZE P"
  shows "read_loop P E k (fed E k) s
       = Some (LoopExit (ssl_read_ret E k), fed E (Suc k),
               s\<lparr> nul_stores := nul_stores s @ [nat (ssl_read_ret E k)] \<rparr>)"
  using assms
  by (subst read_loop.simps) (simp add: nparsed_def chunk_def Let_def)

lemma read_loop_no_data:
  assumes "ssl_read_ret E k \<le> 0"
  shows "read_loop P E k parser s = Some (LoopExit (ssl_read_ret E k), parser, s)"
  using assms by (subst read_loop.simps) simp

subsection \<open>The handshake\<close>

text \<open>
  C4. When the handshake returns want-read or want-write, \<open>send\<close> records that code and
  returns null with the socket still open; when it returns any other negative code,
  \<open>send\<close> closes the socket, records \<open>-1\<close> and returns null.
\<close>

theorem handshake_retry_or_fatal:
  assumes "connects P E"
    and "MBEDTLS_ERR_SSL_WANT_READ P < 0" and "MBEDTLS_ERR_SSL_WANT_WRITE P < 0"
  shows "(retryable P (ssl_handshake_ret E) \<longrightarrow>
            send P E body s
              = Some (None, s\<lparr> tcpsocket_open := True, error_code := ssl_handshake_ret E \<rparr>))
       \<and> (ssl_handshake_ret E < 0 \<and> \<not> retryable P (ssl_handshake_ret E) \<longrightarrow>
            send P E body s = Some (None, s\<lparr> tcpsocket_open := False, error_code := - 1 \<rparr>))"
  using assms
  by (auto simp: send_def connects_def retryable_def onError_def)

theorem handshake_retry_or_fatal_witness:
  "connects mbed smooth \<and> MBEDTLS_ERR_SSL_WANT_READ mbed < 0 \<and> MBEDTLS_ERR_SSL_WANT_WRITE mbed < 0
   \<and> retryable mbed (ssl_handshake_ret (smooth\<lparr> ssl_handshake_ret := - 26880 \<rparr>))
   \<and> send mbed (smooth\<lparr> ssl_handshake_ret := - 26880 \<rparr>) [] fresh
       = Some (None, fresh\<lparr> tcpsocket_open := True, error_code := - 26880 \<rparr>)
   \<and> \<not> retryable mbed (ssl_handshake_ret (smooth\<lparr> ssl_handshake_ret := - 9984 \<rparr>))
   \<and> send mbed (smooth\<lparr> ssl_handshake_ret := - 9984 \<rparr>) [] fresh
       = Some (None, fresh\<lparr> tcpsocket_open := False, error_code := - 1 \<rparr>)"
  using handshake_retry_or_fatal [of mbed "smooth\<lparr> ssl_handshake_ret := - 26880 \<rparr>" "[]" fresh]
    handshake_retry_or_fatal [of mbed "smooth\<lparr> ssl_handshake_ret := - 9984 \<rparr>" "[]" fresh]
  by (simp add: connects_def retryable_def mbed_def smooth_def)

subsection \<open>The parser falls behind\<close>

text \<open>
  C3. When, in some pass of the read loop, the parser reports fewer bytes than the read
  delivered, \<open>send\<close> returns null and \<open>get_error\<close> gives \<open>-2101\<close>.
\<close>

theorem parser_shortfall_is_2101:
  assumes "reaches_read_loop P E body s"
    and "\<forall>i < n. continues P E i"
    and "0 < ssl_read_ret E n"
    and "nparsed E n < nat (ssl_read_ret E n)"
  shows "\<exists>s'. send P E body s = Some (None, s') \<and> get_error s' = - 2101"
proof -
  from send_reaches_read_loop[OF assms(1)] obtain s2 where
    s: "send P E body s = receive_response P E s2" by blast
  have ne: "nparsed E n \<noteq> nat (ssl_read_ret E n)" using assms(4) by simp
  have "read_loop P E 0 (new_HttpResponse E) (s2\<lparr> response := Some (new_HttpResponse E) \<rparr>)
      = Some (ParserError, fed E (Suc n),
          s2\<lparr> response := Some (new_HttpResponse E),
               nul_stores := nul_stores s2 @ stores_of E n @ [nat (ssl_read_ret E n)],
               error_code := - 2101 \<rparr>)"
    using read_loop_skips[OF assms(2), of "s2\<lparr> response := Some (new_HttpResponse E) \<rparr>"]
    by (simp add: read_loop_parser_error[OF assms(3) ne])
  then show ?thesis using s by (simp add: receive_response_def get_error_def)
qed

theorem parser_shortfall_is_2101_witness:
  "reaches_read_loop mbed (smooth\<lparr> execute := (\<lambda>r bs. (length bs - 1, r)) \<rparr>) [] fresh
   \<and> (\<exists>s'. send mbed (smooth\<lparr> execute := (\<lambda>r bs. (length bs - 1, r)) \<rparr>) [] fresh = Some (None, s')
          \<and> get_error s' = - 2101)"
  using parser_shortfall_is_2101 [of mbed "smooth\<lparr> execute := (\<lambda>r bs. (length bs - 1, r)) \<rparr>" "[]" fresh 0]
  by (simp add: reaches_read_loop_def reaches_body_step_def connects_def writes_accepted_def
      mbed_def smooth_def nparsed_def chunk_def)

subsection \<open>Every run of the read loop that ends\<close>

text \<open>
  Induction over the passes of a run that ends: the property holds for a pass when it
  holds for the passes after it.
\<close>

lemma read_loop_induct [consumes 1, case_names pass]:
  assumes "read_loop P E k parser s = Some y"
    and "\<And>f P E k parser s y.
       (\<And>P E k parser s y. f P E k parser s = Some y \<Longrightarrow> Q P E k parser s y) \<Longrightarrow>
       (if 0 < ssl_read_ret E k
        then let bpos = nat (ssl_read_ret E k);
               s1 = s\<lparr>nul_stores := nul_stores s @ [bpos]\<rparr>;
               nparsed = fst (execute E parser (take bpos (ssl_read_bytes E k)));
               parser' = snd (execute E parser (take bpos (ssl_read_bytes E k)))
           in if nparsed \<noteq> bpos
              then Some (ParserError, parser', s1\<lparr>error_code := - 2101\<rparr>)
              else if bpos < HTTP_RECEIVE_BUFFER_SIZE P
                   then Some (LoopExit (ssl_read_ret E k), parser', s1)
                   else f P E (Suc k) parser' s1
        else Some (LoopExit (ssl_read_ret E k), parser, s)) = Some y \<Longrightarrow> Q P E k parser s y"
  shows "Q P E k parser s y"
  using read_loop.raw_induct[where Pa = "\<lambda>((((P, E), k), parser), s) y. Q P E k parser s y", simplified, rotated 1, OF assms(1)] assms(2)
  by blast

lemma read_loop_outcome:
  assumes "read_loop P E k parser s = Some y"
  shows "\<exists>x parser' ns. y = (x, parser', loop_effect x ns s)
      \<and> (\<forall>t. read_loop P E k parser t = Some (x, parser', loop_effect x ns t))
      \<and> (x = ParserError \<or> (\<exists>j. x = LoopExit (ssl_read_ret E j)))"
  using assms
proof (induction rule: read_loop_induct)
  case (pass f P E k parser s y)
  note 1 = pass
  define ret where "ret = ssl_read_ret E k"
  define bpos where "bpos = nat ret"
  define n where "n = fst (execute E parser (take bpos (ssl_read_bytes E k)))"
  define parser' where "parser' = snd (execute E parser (take bpos (ssl_read_bytes E k)))"
  note defs = ret_def bpos_def n_def parser'_def
  consider (none) "ret \<le> 0" | (err) "0 < ret" "n \<noteq> bpos"
    | (short) "0 < ret" "n = bpos" "bpos < HTTP_RECEIVE_BUFFER_SIZE P"
    | (more) "0 < ret" "n = bpos" "\<not> bpos < HTTP_RECEIVE_BUFFER_SIZE P"
    by linarith
  then show ?case
  proof cases
    case none
    then have y: "y = (LoopExit ret, parser, s)" using 1(2) by (simp add: ret_def)
    have "\<forall>t. read_loop P E k parser t = Some (LoopExit ret, parser, loop_effect (LoopExit ret) [] t)"
      using none by (subst read_loop.simps) (simp add: ret_def loop_effect_def)
    then show ?thesis using y unfolding ret_def
      by (intro exI[of _ "LoopExit (ssl_read_ret E k)"] exI[of _ parser] exI[of _ "[]"])
        (auto simp: loop_effect_def)
  next
    case err
    then have y: "y = (ParserError, parser', loop_effect ParserError [bpos] s)"
      using 1(2) by (simp add: defs Let_def loop_effect_def)
    have "\<forall>t. read_loop P E k parser t = Some (ParserError, parser', loop_effect ParserError [bpos] t)"
      using err by (subst read_loop.simps) (simp add: defs Let_def loop_effect_def)
    then show ?thesis using y by blast
  next
    case short
    then have y: "y = (LoopExit ret, parser', loop_effect (LoopExit ret) [bpos] s)"
      using 1(2) by (simp add: defs Let_def loop_effect_def)
    have "\<forall>t. read_loop P E k parser t = Some (LoopExit ret, parser', loop_effect (LoopExit ret) [bpos] t)"
      using short by (subst read_loop.simps) (simp add: defs Let_def loop_effect_def)
    then show ?thesis using y unfolding ret_def by blast
  next
    case more
    then have "f P E (Suc k) parser' (s\<lparr> nul_stores := nul_stores s @ [bpos] \<rparr>) = Some y"
      using 1(2) by (simp add: defs Let_def)
    from 1(1)[OF this] obtain x p ns where ih:
      "y = (x, p, loop_effect x ns (s\<lparr> nul_stores := nul_stores s @ [bpos] \<rparr>))"
      "\<forall>t. read_loop P E (Suc k) parser' t = Some (x, p, loop_effect x ns t)"
      "x = ParserError \<or> (\<exists>j. x = LoopExit (ssl_read_ret E j))"
      by blast
    have shift: "loop_effect x ns (t\<lparr> nul_stores := nul_stores t @ [bpos] \<rparr>) = loop_effect x (bpos # ns) t" for t :: "'a HttpsRequest"
      by (simp add: loop_effect_def)
    have step: "read_loop P E k parser t = read_loop P E (Suc k) parser' (t\<lparr> nul_stores := nul_stores t @ [bpos] \<rparr>)" for t
      using more by (subst read_loop.simps) (simp add: defs Let_def)
    have "\<forall>t. read_loop P E k parser t = Some (x, p, loop_effect x (bpos # ns) t)"
      using ih(2) by (simp add: step shift)
    moreover have "y = (x, p, loop_effect x (bpos # ns) s)" using ih(1) by (simp add: shift)
    ultimately show ?thesis using ih(3) by blast
  qed
qed

lemma read_loop_script_le:
  assumes "read_loop P E' k parser s = Some y"
    and "ssl_read_ret E = ssl_read_ret E'" and "ssl_read_bytes E = ssl_read_bytes E'"
    and "execute E = execute E'"
  shows "read_loop P E k parser s = Some y"
  using assms
proof (induction arbitrary: E rule: read_loop_induct)
  case (pass f P E' k parser s y)
  show ?case
    using pass(2) pass(1)[OF _ pass(3,4,5)] pass(3,4,5)
    by (subst read_loop.simps) (auto simp: Let_def split: if_splits)
qed

lemma read_loop_script:
  assumes "ssl_read_ret E = ssl_read_ret E'" and "ssl_read_bytes E = ssl_read_bytes E'"
    and "execute E = execute E'"
  shows "read_loop P E k parser s = read_loop P E' k parser s"
proof (cases "read_loop P E' k parser s")
  case (Some y)
  then show ?thesis using read_loop_script_le[OF Some assms] by simp
next
  case None
  show ?thesis
  proof (cases "read_loop P E k parser s")
    case (Some y)
    from read_loop_script_le[OF Some assms[symmetric]] None show ?thesis by simp
  next
    case None': None
    then show ?thesis using None by simp
  qed
qed

subsection \<open>The write phase in one equation\<close>

lemma write_request_unfold:
  "write_request P E body s =
     (let ret = ssl_write_ret E (length (written s));
          s1 = s\<lparr> written := written s @ [build E body] \<rparr>
      in if ret < 0 then (True, snd (check_mbedtls_ssl_write P ret s1))
         else (case body_loop P E ret body s1 of
                 (failed, r, s3) \<Rightarrow>
                   if failed then (True, s3)
                   else check_mbedtls_ssl_write P r (s3\<lparr> written := written s3 @ [CRLF] \<rparr>)))"
proof (cases "ssl_write_ret E (length (written s)) < 0")
  case True
  then show ?thesis
    by (simp add: write_request_def mbedtls_ssl_write_def Let_def check_rejects)
next
  case False
  then show ?thesis
    by (simp add: write_request_def mbedtls_ssl_write_def Let_def check_accepts split: prod.splits)
qed

text \<open>The value the CRLF write returns is never looked at.\<close>

lemma write_request_script:
  "write_request P (E\<lparr> ssl_write_ret := (ssl_write_ret E)(crlf_index s body := r) \<rparr>) body s
     = write_request P E body s"
proof -
  define f where "f = (ssl_write_ret E)(crlf_index s body := r)"
  define s1 where "s1 = s\<lparr> written := written s @ [build E body] \<rparr>"
  have first: "f (length (written s)) = ssl_write_ret E (length (written s))"
    by (simp add: f_def crlf_index_def)
  have "\<forall>k < nchunks (length body). f (length (written s1) + k) = ssl_write_ret E (length (written s1) + k)"
    by (simp add: f_def crlf_index_def s1_def)
  then have loop: "body_loop P (E\<lparr> ssl_write_ret := f \<rparr>) ret body s1 = body_loop P E ret body s1" for ret
    by (rule body_loop_script)
  show ?thesis
    unfolding f_def[symmetric]
    by (simp add: write_request_unfold first s1_def[symmetric] loop Let_def cong: if_cong)
qed

subsection \<open>The read phase\<close>

lemma receive_response_keeps_log:
  assumes "receive_response P E s = Some (res, s')"
  shows "written s' = written s"
proof -
  define s0 where "s0 = s\<lparr> response := Some (new_HttpResponse E) \<rparr>"
  from assms obtain y where y: "read_loop P E 0 (new_HttpResponse E) s0 = Some y"
    by (auto simp: receive_response_def s0_def split: option.splits)
  from read_loop_outcome[OF y] obtain x parser' ns where
    o: "y = (x, parser', loop_effect x ns s0)"
    by blast
  have "written (loop_effect x ns s0) = written s"
    by (simp add: loop_effect_def s0_def)
  then show ?thesis
    using assms y o
    by (cases x)
      (auto simp: receive_response_def s0_def[symmetric] Let_def onError_def close_def
        split: if_splits)
qed

lemma receive_response_script:
  "receive_response P (E\<lparr> ssl_write_ret := f \<rparr>) s = receive_response P E s"
proof -
  have "read_loop P (E\<lparr> ssl_write_ret := f \<rparr>) k parser t = read_loop P E k parser t"
    for k parser and t :: "'a HttpsRequest"
    by (rule read_loop_script) simp_all
  then show ?thesis
    by (simp add: receive_response_def Let_def split: option.splits prod.splits loop_exit.splits)
qed

subsection \<open>What reaches the wire\<close>



text \<open>
  C7 (as amended). When the request write and every chunk write of the body are
  accepted, the two bytes CR LF are the next write, whatever the request is and
  whatever the body, the empty body included: the write phase ends with the log
  extended by the request, the chunks of the body and CR LF, \<open>send\<close> goes on to read
  the response from that state, and every \<open>send\<close> that returns has this log.
\<close>

theorem crlf_written_after_body:
  assumes "reaches_read_loop P E body s"
  shows "\<exists>chunks. length chunks = nchunks (length body) \<and> concat chunks = body
      \<and> write_request P E body (s\<lparr> tcpsocket_open := True \<rparr>)
          = (False, s\<lparr> tcpsocket_open := True,
                        written := written s @ [build E body] @ chunks @ [[13, 10]] \<rparr>)
      \<and> send P E body s
          = receive_response P E
              (s\<lparr> tcpsocket_open := True,
                  written := written s @ [build E body] @ chunks @ [[13, 10]] \<rparr>)
      \<and> (\<forall>res s'. send P E body s = Some (res, s') \<longrightarrow>
            written s' = written s @ [build E body] @ chunks @ [[13, 10]])"
proof -
  have w: "writes_accepted E body (s\<lparr> tcpsocket_open := True \<rparr>)"
    using assms by (simp add: reaches_read_loop_def writes_accepted_def)
  from write_request_accepted[OF w, of P] obtain chunks where c:
    "write_request P E body (s\<lparr> tcpsocket_open := True \<rparr>)
       = (False, s\<lparr> tcpsocket_open := True,
                     written := written s @ [build E body] @ chunks @ [CRLF] \<rparr>)"
    "length chunks = nchunks (length body)" "concat chunks = body"
    by auto
  define s2 where "s2 = s\<lparr> tcpsocket_open := True,
      written := written s @ [build E body] @ chunks @ [CRLF] \<rparr>"
  have "reaches_body_step P E" using assms by (simp add: reaches_read_loop_def)
  from send_reaches_body_step[OF this, of body s] c(1)
  have run: "send P E body s = receive_response P E s2" by (simp add: s2_def)
  have "written s' = written s2" if "send P E body s = Some (res, s')" for res s'
    using that run receive_response_keeps_log[of P E s2 res s'] by simp
  then show ?thesis
    using c run unfolding s2_def CRLF_def by (intro exI[of _ chunks]) simp
qed

theorem crlf_written_after_body_witness:
  "reaches_read_loop mbed smooth [1, 2, 3] fresh
   \<and> write_request mbed smooth [1, 2, 3] (fresh\<lparr> tcpsocket_open := True \<rparr>)
       = (False, fresh\<lparr> tcpsocket_open := True,
                        written := [[71, 69, 84], [1, 2, 3], [13, 10]] \<rparr>)
   \<and> reaches_read_loop mbed smooth [] fresh
   \<and> write_request mbed smooth [] (fresh\<lparr> tcpsocket_open := True \<rparr>)
       = (False, fresh\<lparr> tcpsocket_open := True, written := [[71, 69, 84], [13, 10]] \<rparr>)"
proof -
  have reach: "reaches_read_loop mbed smooth body fresh" for body
    by (simp add: reaches_read_loop_def reaches_body_step_def connects_def writes_accepted_def
        mbed_def smooth_def)
  have request: "build smooth body = [71, 69, 84]" for body
    by (simp add: smooth_def)
  have log: "written fresh = []"
    by (simp add: fresh_def)
  have one: "chunks = [[1, 2, 3]]"
    if "length chunks = nchunks (length [1, 2, 3 :: byte])" "concat chunks = [1, 2, 3]"
    for chunks :: "byte list list"
    using that by (cases chunks) (auto simp: nchunks_def)
  have none: "chunks = []" if "length chunks = nchunks (length ([] :: byte list))"
    for chunks :: "byte list list"
    using that by (simp add: nchunks_def)
  from crlf_written_after_body [OF reach, of "[1, 2, 3]"]
    crlf_written_after_body [OF reach, of "[]"]
  show ?thesis
    using reach one none by (auto simp: request log)
qed

text \<open>
  As worded, C7 speaks of every call that reaches the body step. A chunk write that
  returns a negative value makes \<open>send\<close> return at once, before the CRLF write: here
  the handshake succeeds, the request is accepted, the one chunk of a three-byte body
  is refused with \<open>-1\<close>, and the log ends with that chunk.
\<close>

theorem crlf_missing_after_refused_chunk:
  "reaches_body_step mbed (smooth\<lparr> ssl_write_ret := (\<lambda>k. if k = 1 then - 1 else 3) \<rparr>)
   \<and> send mbed (smooth\<lparr> ssl_write_ret := (\<lambda>k. if k = 1 then - 1 else 3) \<rparr>) [1, 2, 3] fresh
       = Some (None, \<lparr> error_code = - 1, response = None, tcpsocket_open = False,
                        written = [[71, 69, 84], [1, 2, 3]], nul_stores = [] \<rparr>)
   \<and> [13, 10] \<notin> set [[71, 69, 84], [1, 2, 3 :: byte]]"
  by (simp add: reaches_body_step_def connects_def send_def write_request_unfold body_loop_pass
      body_loop_done check_rejects retryable_def onError_def Let_def mbed_def smooth_def fresh_def)

subsection \<open>Reading the response\<close>

text \<open>
  C6. On the success path the loop reads buffer after buffer and stops at the first
  read that returns less than the buffer size, or at a hard error of the transport.
  After a short read (or a read of nothing) the parser is finished, the socket is
  closed and the response object is returned; after a hard error the socket is closed
  and null is returned.
\<close>

theorem read_loop_stops_at_short_read:
  assumes "reaches_read_loop P E body s"
    and "\<forall>i < n. continues P E i"
    and "ssl_read_ret E n < int (HTTP_RECEIVE_BUFFER_SIZE P)"
    and "0 < ssl_read_ret E n \<longrightarrow> nparsed E n = nat (ssl_read_ret E n)"
  shows "(0 < ssl_read_ret E n \<longrightarrow>
            (\<exists>s'. send P E body s = Some (Some (finish E (fed E (Suc n))), s')
                \<and> response s' = Some (finish E (fed E (Suc n))) \<and> \<not> tcpsocket_open s'
                \<and> error_code s' = error_code s \<and> nul_stores s' = nul_stores s @ stores_of E (Suc n)))
       \<and> (ssl_read_ret E n = 0 \<longrightarrow>
            (\<exists>s'. send P E body s = Some (Some (finish E (fed E n)), s')
                \<and> response s' = Some (finish E (fed E n)) \<and> \<not> tcpsocket_open s'
                \<and> error_code s' = error_code s \<and> nul_stores s' = nul_stores s @ stores_of E n))
       \<and> (ssl_read_ret E n < 0 \<and> \<not> retryable P (ssl_read_ret E n) \<longrightarrow>
            (\<exists>s'. send P E body s = Some (None, s') \<and> \<not> tcpsocket_open s' \<and> get_error s' = - 1
                \<and> nul_stores s' = nul_stores s @ stores_of E n))"
proof -
  from send_reaches_read_loop[OF assms(1)] obtain s2 where
    s: "send P E body s = receive_response P E s2"
      "error_code s2 = error_code s" "nul_stores s2 = nul_stores s"
    by (metis (no_types, lifting) HttpsRequest.select_convs(1,5) HttpsRequest.surjective
        HttpsRequest.update_convs(3,4))
  define s0 where "s0 = s2\<lparr> response := Some (new_HttpResponse E) \<rparr>"
  have s0: "error_code s0 = error_code s" "nul_stores s0 = nul_stores s"
    using s(2,3) by (simp_all add: s0_def)
  have skip: "read_loop P E 0 (new_HttpResponse E) s0
      = read_loop P E n (fed E n) (s0\<lparr> nul_stores := nul_stores s0 @ stores_of E n \<rparr>)"
    using read_loop_skips[OF assms(2), of s0] by simp
  have more: "stores_of E (Suc n) = stores_of E n @ [nat (ssl_read_ret E n)]"
    by (simp add: stores_of_def)
  have short: "0 < ssl_read_ret E n \<Longrightarrow> ?thesis"
  proof -
    assume pos: "0 < ssl_read_ret E n"
    then have "nat (ssl_read_ret E n) < HTTP_RECEIVE_BUFFER_SIZE P" using assms(3) by simp
    from read_loop_short_read[OF pos assms(4)[rule_format, OF pos] this]
    show ?thesis using pos s(1) s0 skip
      by (simp add: receive_response_def s0_def[symmetric] close_def more)
  qed
  have none: "ssl_read_ret E n \<le> 0 \<Longrightarrow> ?thesis"
  proof -
    assume le: "ssl_read_ret E n \<le> 0"
    from read_loop_no_data[OF le]
    show ?thesis using le s(1) s0 skip
      by (auto simp: receive_response_def s0_def[symmetric] close_def onError_def retryable_def
          get_error_def)
  qed
  show ?thesis
  proof (cases "0 < ssl_read_ret E n")
    case True
    then show ?thesis by (rule short)
  next
    case False
    then have "ssl_read_ret E n \<le> 0" by simp
    then show ?thesis by (rule none)
  qed
qed

theorem read_loop_stops_at_short_read_witness:
  "reaches_read_loop mbed (smooth\<lparr> ssl_read_ret := (\<lambda>k. if k = 0 then 1024 else 5),
                                   ssl_read_bytes := (\<lambda>k. replicate 1024 0) \<rparr>) [] fresh
   \<and> (\<exists>s'. send mbed (smooth\<lparr> ssl_read_ret := (\<lambda>k. if k = 0 then 1024 else 5),
                                   ssl_read_bytes := (\<lambda>k. replicate 1024 0) \<rparr>) [] fresh
             = Some (Some 2029, s')
          \<and> response s' = Some 2029 \<and> \<not> tcpsocket_open s' \<and> nul_stores s' = [1024, 5])
   \<and> (\<exists>s'. send mbed (smooth\<lparr> ssl_read_ret := (\<lambda>k. - 1) \<rparr>) [] fresh = Some (None, s')
          \<and> \<not> tcpsocket_open s' \<and> get_error s' = - 1)"
proof -
  define E :: "nat env" where "E = smooth\<lparr> ssl_read_ret := (\<lambda>k. if k = 0 then 1024 else 5),
                                   ssl_read_bytes := (\<lambda>k. replicate 1024 0) \<rparr>"
  define F :: "nat env" where "F = smooth\<lparr> ssl_read_ret := (\<lambda>k. - 1) \<rparr>"
  have reachE: "reaches_read_loop mbed E [] fresh" and reachF: "reaches_read_loop mbed F [] fresh"
    by (simp_all add: E_def F_def reaches_read_loop_def reaches_body_step_def connects_def
        writes_accepted_def mbed_def smooth_def)
  have full: "\<forall>i < 1. continues mbed E i"
    by (simp add: continues_def nparsed_def chunk_def E_def smooth_def mbed_def)
  have last: "ssl_read_ret E 1 < int (HTTP_RECEIVE_BUFFER_SIZE mbed)"
      "0 < ssl_read_ret E 1 \<longrightarrow> nparsed E 1 = nat (ssl_read_ret E 1)"
    by (simp_all add: nparsed_def chunk_def E_def smooth_def mbed_def)
  have fed: "finish E (fed E (Suc 1)) = 2029"
    by (simp add: chunk_def E_def smooth_def)
  have stores: "nul_stores fresh @ stores_of E (Suc 1) = [1024, 5]"
    by (simp add: stores_of_def E_def fresh_def)
  have hard: "ssl_read_ret F 0 < int (HTTP_RECEIVE_BUFFER_SIZE mbed)"
      "0 < ssl_read_ret F 0 \<longrightarrow> nparsed F 0 = nat (ssl_read_ret F 0)"
      "ssl_read_ret F 0 < 0 \<and> \<not> retryable mbed (ssl_read_ret F 0)"
    by (simp_all add: F_def retryable_def mbed_def)
  have pos: "0 < ssl_read_ret E 1"
    by (simp add: E_def)
  from read_loop_stops_at_short_read [OF reachE full last] pos
  have "\<exists>s'. send mbed E [] fresh = Some (Some (finish E (fed E (Suc 1))), s')
      \<and> response s' = Some (finish E (fed E (Suc 1))) \<and> \<not> tcpsocket_open s'
      \<and> error_code s' = error_code fresh
      \<and> nul_stores s' = nul_stores fresh @ stores_of E (Suc 1)"
    by blast
  then have short: "\<exists>s'. send mbed E [] fresh = Some (Some 2029, s')
      \<and> response s' = Some 2029 \<and> \<not> tcpsocket_open s' \<and> nul_stores s' = [1024, 5]"
    unfolding fed stores by blast
  have "\<forall>i < 0. continues mbed F i" by simp
  from read_loop_stops_at_short_read [OF reachF this hard(1,2)] hard(3)
  have fatal: "\<exists>s'. send mbed F [] fresh = Some (None, s') \<and> \<not> tcpsocket_open s' \<and> get_error s' = - 1"
    by blast
  show ?thesis
    using reachE short fatal unfolding E_def F_def by blast
qed

subsection \<open>The CRLF write is not checked\<close>

text \<open>
  C10. The value returned by the CRLF write is dropped, and the check after it looks
  again at the value of the write before, which was accepted already. So when the
  request and the chunks are accepted and only the CRLF write fails, \<open>send\<close> goes on
  to read the response with no error recorded and the socket open; and in every run
  the outcome of \<open>send\<close> is the same whatever the CRLF write returns.
\<close>

theorem crlf_write_failure_ignored:
  assumes "reaches_read_loop P E body s"
    and "ssl_write_ret E (crlf_index s body) < 0"
  shows "(\<exists>s2. send P E body s = receive_response P E s2
            \<and> error_code s2 = error_code s \<and> tcpsocket_open s2
            \<and> length (written s2) = Suc (crlf_index s body) \<and> last (written s2) = CRLF)
       \<and> (\<forall>r. send P (E\<lparr> ssl_write_ret := (ssl_write_ret E)(crlf_index s body := r) \<rparr>) body s
              = send P E body s)"
proof
  from send_reaches_read_loop[OF assms(1)] obtain chunks where c:
    "send P E body s = receive_response P E
        (s\<lparr> tcpsocket_open := True, written := written s @ [build E body] @ chunks @ [CRLF] \<rparr>)"
    "length chunks = nchunks (length body)"
    by blast
  show "\<exists>s2. send P E body s = receive_response P E s2
            \<and> error_code s2 = error_code s \<and> tcpsocket_open s2
            \<and> length (written s2) = Suc (crlf_index s body) \<and> last (written s2) = CRLF"
    using c
    by (intro exI[of _ "s\<lparr> tcpsocket_open := True, written := written s @ [build E body] @ chunks @ [CRLF] \<rparr>"])
      (simp add: crlf_index_def)
next
  show "\<forall>r. send P (E\<lparr> ssl_write_ret := (ssl_write_ret E)(crlf_index s body := r) \<rparr>) body s
              = send P E body s"
  proof
    fix r
    define E' where "E' = E\<lparr> ssl_write_ret := (ssl_write_ret E)(crlf_index s body := r) \<rparr>"
    have i: "crlf_index (s\<lparr> tcpsocket_open := True \<rparr>) body = crlf_index s body"
      by (simp add: crlf_index_def)
    have w: "write_request P E' body (s\<lparr> tcpsocket_open := True \<rparr>)
        = write_request P E body (s\<lparr> tcpsocket_open := True \<rparr>)"
      using write_request_script[of P E "s\<lparr> tcpsocket_open := True \<rparr>" body r]
      by (simp add: E'_def i)
    have rd: "receive_response P E' t = receive_response P E t" for t
      unfolding E'_def by (rule receive_response_script)
    have "send P E' body s = send P E body s"
    proof (cases "reaches_body_step P E")
      case True
      then have "reaches_body_step P E'"
        by (simp add: E'_def reaches_body_step_def connects_def)
      then show ?thesis
        using True by (simp add: send_reaches_body_step w rd cong: if_cong)
    next
      case False
      then show ?thesis
        by (auto simp: send_def E'_def reaches_body_step_def connects_def Let_def cong: if_cong)
    qed
    then show "send P (E\<lparr> ssl_write_ret := (ssl_write_ret E)(crlf_index s body := r) \<rparr>) body s
              = send P E body s"
      by (simp add: E'_def)
  qed
qed

theorem crlf_write_failure_ignored_witness:
  "reaches_read_loop mbed (smooth\<lparr> ssl_write_ret := (\<lambda>k. if k = 1 then - 1 else 3) \<rparr>) [] fresh
   \<and> ssl_write_ret (smooth\<lparr> ssl_write_ret := (\<lambda>k. if k = 1 then - 1 else 3) \<rparr>) (crlf_index fresh []) < 0
   \<and> (\<exists>s2. send mbed (smooth\<lparr> ssl_write_ret := (\<lambda>k. if k = 1 then - 1 else 3) \<rparr>) [] fresh
              = receive_response mbed (smooth\<lparr> ssl_write_ret := (\<lambda>k. if k = 1 then - 1 else 3) \<rparr>) s2
          \<and> error_code s2 = error_code fresh \<and> tcpsocket_open s2 \<and> last (written s2) = CRLF)"
proof -
  define E :: "nat env" where "E = smooth\<lparr> ssl_write_ret := (\<lambda>k. if k = 1 then - 1 else 3) \<rparr>"
  have reach: "reaches_read_loop mbed E [] fresh"
    by (simp add: E_def reaches_read_loop_def reaches_body_step_def connects_def
        writes_accepted_def mbed_def smooth_def nchunks_def fresh_def)
  have fails: "ssl_write_ret E (crlf_index fresh []) < 0"
    by (simp add: E_def crlf_index_def nchunks_def fresh_def)
  from crlf_write_failure_ignored [OF reach fails]
  show ?thesis using reach fails unfolding E_def by blast
qed

subsection \<open>Where the code falls short\<close>

text \<open>
  C1. The parser error path returns without closing the socket: with a parser that
  leaves the last byte of the first read, \<open>send\<close> returns null with \<open>-2101\<close> recorded
  and the socket still open, though no retry code is involved.
\<close>

theorem parser_error_leaves_socket_open:
  "send mbed (smooth\<lparr> execute := (\<lambda>r bs. (length bs - 1, r)) \<rparr>) [] fresh
     = Some (None, \<lparr> error_code = - 2101, response = Some 0, tcpsocket_open = True,
                     written = [[71, 69, 84], [13, 10]], nul_stores = [5] \<rparr>)"
  by (simp add: send_def write_request_unfold body_loop_done check_accepts receive_response_def
      read_loop.simps mbed_def smooth_def fresh_def CRLF_def)

text \<open>
  C2. When the socket reports would-block for a send of \<open>len\<close> bytes, the callback
  \<open>ssl_send\<close> answers with \<open>len\<close> itself, as if all bytes had been written (4000 for
  a full chunk); the receive callback turns the same report into the want-read code.
\<close>

theorem would_block_send_counted_as_written:
  "ssl_send P (NSAPI_ERROR_WOULD_BLOCK P) len = int_of_size_t len
   \<and> int_of_size_t 4000 = 4000
   \<and> ssl_recv P (NSAPI_ERROR_WOULD_BLOCK P) = MBEDTLS_ERR_SSL_WANT_READ P"
  by (simp add: ssl_send_def ssl_recv_def int_of_size_t_def)

text \<open>
  C9. The receive buffer has \<open>HTTP_RECEIVE_BUFFER_SIZE\<close> bytes, so a store is inside it
  when its index is below that size. A read that fills the buffer is followed by a
  store of zero at the index equal to the size, one past the last element.
\<close>

theorem full_read_stores_past_buffer:
  "send mbed (smooth\<lparr> ssl_read_ret := (\<lambda>k. if k = 0 then 1024 else 0),
                       ssl_read_bytes := (\<lambda>k. replicate 1024 0) \<rparr>) [] fresh
     = Some (Some 2024, \<lparr> error_code = 0, response = Some 2024, tcpsocket_open = False,
                     written = [[71, 69, 84], [13, 10]], nul_stores = [1024] \<rparr>)
   \<and> \<not> 1024 < HTTP_RECEIVE_BUFFER_SIZE mbed"
  by (simp add: send_def write_request_unfold body_loop_done check_accepts receive_response_def
      read_loop.simps mbed_def smooth_def fresh_def CRLF_def close_def)

text \<open>
  C8. A step of \<open>send\<close> that fails is meant to put its code in place of the one held
  before. The CRLF write is followed by the check, but the check is given the value of
  the write before it: with the CRLF write returning \<open>-78\<close> and an old code \<open>42\<close>,
  \<open>send\<close> returns the response and \<open>get_error\<close> still gives \<open>42\<close>.
\<close>

theorem crlf_write_failure_keeps_old_code:
  "send mbed (smooth\<lparr> ssl_write_ret := (\<lambda>k. if k = 1 then - 78 else 3) \<rparr>) []
        (fresh\<lparr> error_code := 42 \<rparr>)
     = Some (Some 1005, \<lparr> error_code = 42, response = Some 1005, tcpsocket_open = False,
                          written = [[71, 69, 84], [13, 10]], nul_stores = [5] \<rparr>)
   \<and> get_error \<lparr> error_code = 42, response = Some (1005 :: nat), tcpsocket_open = False,
                  written = [[71, 69, 84], [13, 10]], nul_stores = [5] \<rparr> = 42"
  by (simp add: send_def write_request_unfold body_loop_done check_accepts receive_response_def
      read_loop.simps mbed_def smooth_def fresh_def CRLF_def close_def get_error_def)

end
